theory Spec2Isabelle
  imports Main "HOL-Library.Word"
begin

section \<open>JavaScript strings\<close>

text \<open>
  A JavaScript string is a finite sequence of 16-bit code units; a Node.js \<open>Buffer\<close> is a
  sequence of bytes. String literals of the source are written through \<open>js\<close>, which maps
  each (ASCII) character to its code unit.
\<close>

type_synonym jsstring = "16 word list"
type_synonym buffer = "8 word list"

definition js :: "string \<Rightarrow> jsstring" where
  "js s = map of_char s"

subsection \<open>Searching: \<open>String.prototype.includes\<close> and \<open>StringIndexOf\<close>\<close>

definition startsWith :: "'a list \<Rightarrow> 'a list \<Rightarrow> bool" where
  "startsWith s m = (take (length m) s = m)"

text \<open>
  \<open>indexOf s m\<close> is ECMAScript's \<open>StringIndexOf(s, m, 0)\<close>: the least position at which
  \<open>m\<close> occurs in \<open>s\<close>, \<open>None\<close> for not-found. The empty string occurs at position 0 of
  every string, the empty one included.
\<close>

fun indexOf :: "'a list \<Rightarrow> 'a list \<Rightarrow> nat option" where
  "indexOf [] m = (if m = [] then Some 0 else None)"
| "indexOf (c # cs) m =
     (if startsWith (c # cs) m then Some 0 else map_option Suc (indexOf cs m))"

definition js_includes :: "'a list \<Rightarrow> 'a list \<Rightarrow> bool" where
  "js_includes s m = (indexOf s m \<noteq> None)"

subsection \<open>\<open>String.prototype.replace\<close> with a string pattern\<close>

text \<open>
  The replacement string of \<open>replace\<close> is a template: ECMAScript's \<open>GetSubstitution\<close>
  expands \<open>$$\<close> to a dollar sign, \<open>$&\<close> to the matched text, \<open>$`\<close> to the text before
  the match and \<open>$'\<close> to the text after it. With a string pattern there are no capture
  groups, so \<open>$1\<close> .. \<open>$99\<close> and \<open>$<\<close> stand for themselves, as every other code unit
  does. The code units are \<open>0x24\<close> (dollar), \<open>0x26\<close> (ampersand), \<open>0x27\<close> (apostrophe)
  and \<open>0x60\<close> (backtick).
\<close>

fun getSubstitution :: "jsstring \<Rightarrow> jsstring \<Rightarrow> nat \<Rightarrow> jsstring \<Rightarrow> jsstring" where
  "getSubstitution matched str position [] = []"
| "getSubstitution matched str position [c] = [c]"
| "getSubstitution matched str position (c # d # rest) =
     (if c = 0x24 \<and> d = 0x24 then 0x24 # getSubstitution matched str position rest
      else if c = 0x24 \<and> d = 0x60 then
        take position str @ getSubstitution matched str position rest
      else if c = 0x24 \<and> d = 0x26 then
        matched @ getSubstitution matched str position rest
      else if c = 0x24 \<and> d = 0x27 then
        drop (min (position + length matched) (length str)) str
          @ getSubstitution matched str position rest
      else c # getSubstitution matched str position (d # rest))"

definition js_replace :: "jsstring \<Rightarrow> jsstring \<Rightarrow> jsstring \<Rightarrow> jsstring" where
  "js_replace s searchValue replaceValue =
     (case indexOf s searchValue of
        None \<Rightarrow> s
      | Some pos \<Rightarrow>
          take pos s @ getSubstitution searchValue s pos replaceValue
            @ drop (pos + length searchValue) s)"

text \<open>
  A template holds a replacement pattern when a dollar sign is followed by a dollar sign, an
  ampersand, an apostrophe or a backtick.
\<close>

fun hasReplacementPattern :: "jsstring \<Rightarrow> bool" where
  "hasReplacementPattern (c # d # rest) =
     ((c = 0x24 \<and> d \<in> set [0x24, 0x26, 0x27, 0x60]) \<or> hasReplacementPattern (d # rest))"
| "hasReplacementPattern [c] = False"
| "hasReplacementPattern [] = False"

subsection \<open>\<open>String.prototype.split\<close> and \<open>Array.prototype.join\<close>\<close>

lemma indexOf_bound: "indexOf s m = Some j \<Longrightarrow> j + length m \<le> length s"
proof (induction s arbitrary: j)
  case Nil
  then show ?case by (simp split: if_splits)
next
  case (Cons c cs)
  show ?case
  proof (cases "startsWith (c # cs) m")
    case True
    then have "length (take (length m) (c # cs)) = length m"
      unfolding startsWith_def by simp
    then have "length m \<le> length (c # cs)"
      by (simp add: min_def split: if_splits)
    with True Cons.prems show ?thesis by simp
  next
    case False
    with Cons.prems obtain k where "indexOf cs m = Some k" "j = Suc k"
      by auto
    with Cons.IH show ?thesis by fastforce
  qed
qed

text \<open>
  The scanning loop of \<open>split\<close> for a non-empty separator: cut at the leftmost occurrence,
  continue behind it.
\<close>

function split_loop :: "'a list \<Rightarrow> 'a list \<Rightarrow> 'a list list" where
  "split_loop s m =
     (if m = [] then [s]
      else case indexOf s m of
             None \<Rightarrow> [s]
           | Some j \<Rightarrow> take j s # split_loop (drop (j + length m) s) m)"
  by pat_completeness auto
termination
proof (relation "measure (\<lambda>(s, m). length s)")
  show "wf (measure (\<lambda>(s, m). length s))" by simp
next
  fix s m :: "'a list" and j
  assume nonempty: "m \<noteq> []" and found: "indexOf s m = Some j"
  have "j + length m \<le> length s"
    using found by (rule indexOf_bound)
  moreover have "0 < length m"
    using nonempty by simp
  ultimately have "length s - (j + length m) < length s"
    by arith
  then show "((drop (j + length m) s, m), (s, m)) \<in> measure (\<lambda>(s, m). length s)"
    by simp
qed

declare split_loop.simps [simp del]

text \<open>
  \<open>split\<close> with an empty separator returns the code units one by one (none for the empty
  string); otherwise the pieces between the occurrences of the separator.
\<close>

definition js_split :: "'a list \<Rightarrow> 'a list \<Rightarrow> 'a list list" where
  "js_split s m = (if m = [] then map (\<lambda>c. [c]) s else split_loop s m)"

fun js_join :: "'a list list \<Rightarrow> 'a list \<Rightarrow> 'a list" where
  "js_join [] sep = []"
| "js_join [x] sep = x"
| "js_join (x # y # ys) sep = x @ sep @ js_join (y # ys) sep"

subsection \<open>\<open>String.prototype.trim\<close>\<close>

text \<open>
  The code units ECMAScript counts as white space or line terminators; all of them lie in
  the Basic Multilingual Plane.
\<close>

definition isWhiteSpace :: "16 word \<Rightarrow> bool" where
  "isWhiteSpace c =
     (c \<in> set [0x09, 0x0A, 0x0B, 0x0C, 0x0D, 0x20, 0xA0, 0x1680,
               0x2000, 0x2001, 0x2002, 0x2003, 0x2004, 0x2005, 0x2006, 0x2007,
               0x2008, 0x2009, 0x200A, 0x2028, 0x2029, 0x202F, 0x205F, 0x3000, 0xFEFF])"

definition js_trim :: "jsstring \<Rightarrow> jsstring" where
  "js_trim s = rev (dropWhile isWhiteSpace (rev (dropWhile isWhiteSpace s)))"

section \<open>Configuration\<close>

text \<open>
  The module-level constants of \<open>server.js\<close> that the request path reads, as one record.
  A compiled exclusion pattern is its \<open>test\<close> function.
\<close>

record config =
  INJECT_HTML :: jsstring
  INJECT_TARGET :: jsstring
  INJECT_MODE :: jsstring
  INJECT_ONCE :: bool
  CT_MATCH :: jsstring
  INJECT_IF_HEADER :: jsstring
  EXCLUDE_PATTERNS :: "(jsstring \<Rightarrow> bool) list"

section \<open>The injector\<close>

record injection =
  out :: jsstring
  changed :: bool

text \<open>The insertion unit, the local constant \<open>payload\<close> of \<open>injectIntoHtml\<close>.\<close>

definition payload :: "config \<Rightarrow> jsstring" where
  "payload cfg =
     (if INJECT_MODE cfg = js ''after'' then INJECT_TARGET cfg @ INJECT_HTML cfg
      else INJECT_HTML cfg @ INJECT_TARGET cfg)"

definition injectIntoHtml :: "config \<Rightarrow> jsstring \<Rightarrow> injection" where
  "injectIntoHtml cfg html =
     (if js_trim (INJECT_HTML cfg) = [] then \<lparr>out = html, changed = False\<rparr>
      else if \<not> js_includes html (INJECT_TARGET cfg) then \<lparr>out = html, changed = False\<rparr>
      else if INJECT_ONCE cfg then
        (let out = js_replace html (INJECT_TARGET cfg) (payload cfg)
         in \<lparr>out = out, changed = (out \<noteq> html)\<rparr>)
      else
        (let out = js_join (js_split html (INJECT_TARGET cfg)) (payload cfg)
         in \<lparr>out = out, changed = (out \<noteq> html)\<rparr>))"

section \<open>UTF-8\<close>

text \<open>
  \<open>Buffer.byteLength(s, "utf8")\<close> is the number of bytes of the UTF-8 encoding of \<open>s\<close>. A
  surrogate pair encodes one code point in four bytes; a surrogate without its partner is
  encoded as the replacement character U+FFFD (three bytes).
\<close>

definition isHighSurrogate :: "16 word \<Rightarrow> bool" where
  "isHighSurrogate c = (0xD800 \<le> c \<and> c \<le> 0xDBFF)"

definition isLowSurrogate :: "16 word \<Rightarrow> bool" where
  "isLowSurrogate c = (0xDC00 \<le> c \<and> c \<le> 0xDFFF)"

definition encodeCodePoint :: "nat \<Rightarrow> buffer" where
  "encodeCodePoint cp =
     (if cp < 0x80 then [of_nat cp]
      else if cp < 0x800 then [of_nat (0xC0 + cp div 64), of_nat (0x80 + cp mod 64)]
      else if cp < 0x10000 then
        [of_nat (0xE0 + cp div 4096), of_nat (0x80 + cp div 64 mod 64), of_nat (0x80 + cp mod 64)]
      else
        [of_nat (0xF0 + cp div 262144), of_nat (0x80 + cp div 4096 mod 64),
         of_nat (0x80 + cp div 64 mod 64), of_nat (0x80 + cp mod 64)])"

fun utf8_encode :: "jsstring \<Rightarrow> buffer" where
  "utf8_encode [] = []"
| "utf8_encode [c] =
     (if isHighSurrogate c \<or> isLowSurrogate c then encodeCodePoint 0xFFFD
      else encodeCodePoint (unat c))"
| "utf8_encode (c # d # rest) =
     (if isHighSurrogate c \<and> isLowSurrogate d then
        encodeCodePoint (0x10000 + (unat c - 0xD800) * 1024 + (unat d - 0xDC00))
          @ utf8_encode rest
      else if isHighSurrogate c \<or> isLowSurrogate c then
        encodeCodePoint 0xFFFD @ utf8_encode (d # rest)
      else encodeCodePoint (unat c) @ utf8_encode (d # rest))"

definition byteLength :: "jsstring \<Rightarrow> nat" where
  "byteLength s = length (utf8_encode s)"

text \<open>
  \<open>buffer.toString("utf8")\<close> decodes with replacement: every maximal ill-formed byte
  sequence becomes one U+FFFD, and the byte that ended it is read again. The decoder keeps
  the code point collected so far, the number of continuation bytes still needed and the
  range allowed for the next byte.
\<close>

record utf8_state =
  code_point :: nat
  bytes_needed :: nat
  lower_boundary :: "8 word"
  upper_boundary :: "8 word"

definition utf8_init :: utf8_state where
  "utf8_init =
     \<lparr>code_point = 0, bytes_needed = 0, lower_boundary = 0x80, upper_boundary = 0xBF\<rparr>"

definition codeUnits :: "nat \<Rightarrow> jsstring" where
  "codeUnits cp =
     (if cp < 0x10000 then [of_nat cp]
      else [of_nat (0xD800 + (cp - 0x10000) div 1024), of_nat (0xDC00 + (cp - 0x10000) mod 1024)])"

text \<open>A byte read when no continuation byte is pending: what is emitted, and the next state.\<close>

definition utf8_lead :: "8 word \<Rightarrow> jsstring \<times> utf8_state" where
  "utf8_lead b =
     (if b < 0x80 then ([ucast b], utf8_init)
      else if 0xC2 \<le> b \<and> b \<le> 0xDF then
        ([], \<lparr>code_point = unat b mod 32, bytes_needed = 1,
              lower_boundary = 0x80, upper_boundary = 0xBF\<rparr>)
      else if 0xE0 \<le> b \<and> b \<le> 0xEF then
        ([], \<lparr>code_point = unat b mod 16, bytes_needed = 2,
              lower_boundary = (if b = 0xE0 then 0xA0 else 0x80),
              upper_boundary = (if b = 0xED then 0x9F else 0xBF)\<rparr>)
      else if 0xF0 \<le> b \<and> b \<le> 0xF4 then
        ([], \<lparr>code_point = unat b mod 8, bytes_needed = 3,
              lower_boundary = (if b = 0xF0 then 0x90 else 0x80),
              upper_boundary = (if b = 0xF4 then 0x8F else 0xBF)\<rparr>)
      else ([0xFFFD], utf8_init))"

fun utf8_decode_from :: "utf8_state \<Rightarrow> buffer \<Rightarrow> jsstring" where
  "utf8_decode_from st [] = (if bytes_needed st \<noteq> 0 then [0xFFFD] else [])"
| "utf8_decode_from st (b # bs) =
     (if bytes_needed st = 0 then
        fst (utf8_lead b) @ utf8_decode_from (snd (utf8_lead b)) bs
      else if b < lower_boundary st \<or> upper_boundary st < b then
        0xFFFD # fst (utf8_lead b) @ utf8_decode_from (snd (utf8_lead b)) bs
      else if bytes_needed st = 1 then
        codeUnits (code_point st * 64 + unat b mod 64) @ utf8_decode_from utf8_init bs
      else
        utf8_decode_from
          \<lparr>code_point = code_point st * 64 + unat b mod 64,
           bytes_needed = bytes_needed st - 1,
           lower_boundary = 0x80, upper_boundary = 0xBF\<rparr> bs)"

definition utf8_decode :: "buffer \<Rightarrow> jsstring" where
  "utf8_decode buf = utf8_decode_from utf8_init buf"

text \<open>\<open>Number.prototype.toString\<close> on a non-negative integer: its decimal digits.\<close>

fun decimal :: "nat \<Rightarrow> jsstring" where
  "decimal n =
     (if n < 10 then [of_nat (48 + n)]
      else decimal (n div 10) @ [of_nat (48 + n mod 10)])"

declare decimal.simps [simp del]

section \<open>Requests and responses\<close>

text \<open>
  A header object maps names to values and keeps the order in which the names were added.
  Reading a name that is absent gives \<open>undefined\<close> (\<open>None\<close>); assigning to a name
  overwrites its value in place or adds the name at the end.
\<close>

type_synonym headers = "(jsstring \<times> jsstring) list"

fun assign :: "headers \<Rightarrow> jsstring \<Rightarrow> jsstring \<Rightarrow> headers" where
  "assign [] k v = [(k, v)]"
| "assign ((k', v') # hs) k v =
     (if k' = k then (k, v) # hs else (k', v') # assign hs k v)"

text \<open>
  \<open>setHeader\<close> of an outgoing request compares header names without regard to case: a
  header of that name is replaced where it stands, otherwise the header is added.
\<close>

fun setHeader :: "(jsstring \<Rightarrow> jsstring) \<Rightarrow> headers \<Rightarrow> jsstring \<Rightarrow> jsstring \<Rightarrow> headers" where
  "setHeader toLowerCase [] name v = [(name, v)]"
| "setHeader toLowerCase ((k', v') # hs) name v =
     (if toLowerCase k' = toLowerCase name then (name, v) # hs
      else (k', v') # setHeader toLowerCase hs name v)"

text \<open>
  The incoming request, with the property \<open>__skipInject\<close> that \<open>onProxyReq\<close> adds to it
  (\<open>None\<close> while it is not set, which JavaScript reads as false).
\<close>

record request =
  url :: jsstring
  skipInject :: "bool option"

text \<open>The upstream response as the interceptor sees it: its header object.\<close>

record proxyRes =
  headers :: headers

text \<open>The interceptor returns either the buffer it was given or a string.\<close>

datatype body = Buf buffer | Str jsstring

section \<open>Path exclusion\<close>

definition isExcludedPath :: "config \<Rightarrow> jsstring \<Rightarrow> bool" where
  "isExcludedPath cfg path = list_ex (\<lambda>rx. rx path) (EXCLUDE_PATTERNS cfg)"

section \<open>The proxy callbacks\<close>

text \<open>
  \<open>onProxyReq\<close> sets the \<open>accept-encoding\<close> header of the outgoing request (given here by
  its headers) and marks the incoming request. JavaScript's \<open>toLowerCase\<close> depends on the
  Unicode case mapping and is a parameter, here and below.
\<close>

definition onProxyReq ::
  "(jsstring \<Rightarrow> jsstring) \<Rightarrow> config \<Rightarrow> headers \<Rightarrow> request \<Rightarrow> headers \<times> request" where
  "onProxyReq toLowerCase cfg proxyReq req =
     (setHeader toLowerCase proxyReq (js ''accept-encoding'') (js ''identity''),
      req\<lparr>skipInject := Some (isExcludedPath cfg (url req))\<rparr>)"

text \<open>
  The function given to \<open>responseInterceptor\<close>. It returns the body to send and leaves the
  response object as it is or with its \<open>content-length\<close> assigned. JavaScript's
  \<open>toLowerCase\<close> depends on the Unicode case mapping and is a parameter.
\<close>

definition contentType :: "(jsstring \<Rightarrow> jsstring) \<Rightarrow> proxyRes \<Rightarrow> jsstring" where
  "contentType toLowerCase res =
     toLowerCase (case map_of (headers res) (js ''content-type'') of
                    None \<Rightarrow> []
                  | Some v \<Rightarrow> v)"

text \<open>The two conditions under which the interceptor gives the buffer back before decoding it.\<close>

definition contentTypeRejected :: "(jsstring \<Rightarrow> jsstring) \<Rightarrow> config \<Rightarrow> proxyRes \<Rightarrow> bool" where
  "contentTypeRejected toLowerCase cfg res =
     (CT_MATCH cfg \<noteq> [] \<and> \<not> js_includes (contentType toLowerCase res) (CT_MATCH cfg))"

definition requiredHeaderMissing :: "(jsstring \<Rightarrow> jsstring) \<Rightarrow> config \<Rightarrow> proxyRes \<Rightarrow> bool" where
  "requiredHeaderMissing toLowerCase cfg res =
     (INJECT_IF_HEADER cfg \<noteq> []
      \<and> INJECT_IF_HEADER cfg \<notin> set (map toLowerCase (map fst (headers res))))"

definition onProxyRes ::
  "(jsstring \<Rightarrow> jsstring) \<Rightarrow> config \<Rightarrow> buffer \<Rightarrow> proxyRes \<Rightarrow> request \<Rightarrow> body \<times> proxyRes" where
  "onProxyRes toLowerCase cfg buf res req =
     (if skipInject req = Some True then (Buf buf, res)
      else if contentTypeRejected toLowerCase cfg res then (Buf buf, res)
      else if requiredHeaderMissing toLowerCase cfg res then (Buf buf, res)
      else
        (let r = injectIntoHtml cfg (utf8_decode buf)
         in if \<not> changed r then (Buf buf, res)
            else (Str (out r),
                  res\<lparr>headers :=
                    assign (headers res) (js ''content-length'') (decimal (byteLength (out r)))\<rparr>)))"

section \<open>Start-up: the constants from the environment\<close>

text \<open>
  The environment variables the constants are read from; \<open>None\<close> is an unset variable.
  \<open>process.env.X || d\<close> takes the default for an unset and for an empty variable alike.
\<close>

record process_env =
  env_INJECT_HTML :: "jsstring option"
  env_INJECT_TARGET :: "jsstring option"
  env_INJECT_MODE :: "jsstring option"
  env_INJECT_ONCE :: "jsstring option"
  env_INJECT_CT_MATCH :: "jsstring option"
  env_INJECT_IF_HEADER :: "jsstring option"
  env_INJECT_EXCLUDE_PATHS :: "jsstring option"

definition orDefault :: "jsstring option \<Rightarrow> jsstring \<Rightarrow> jsstring" where
  "orDefault v d = (case v of None \<Rightarrow> d | Some s \<Rightarrow> if s = [] then d else s)"

definition default_INJECT_HTML :: jsstring where
  \<open>default_INJECT_HTML =
     js ''<script defer src="https://analytics.kahiether.com/script.js" data-website-id="xxxx"></script>''\<close>

text \<open>
  The sources of the exclusion patterns: the pieces of the comma-separated list, trimmed,
  the empty ones dropped.
\<close>

definition excludeSources :: "process_env \<Rightarrow> jsstring list" where
  "excludeSources env =
     filter (\<lambda>s. s \<noteq> [])
       (map js_trim
         (js_split (orDefault (env_INJECT_EXCLUDE_PATHS env)
                      (js ''^/wp-admin,^/wp-json,^/xmlrpc.php''))
            (js '','')))"

text \<open>
  The constants of a process started in environment \<open>env\<close>. The regular-expression
  compiler \<open>newRegExp\<close> is a parameter: it gives the \<open>test\<close> function of a pattern, or
  \<open>None\<close> where \<open>new RegExp\<close> throws, and then the module does not load.
\<close>

definition configFromEnv ::
  "(jsstring \<Rightarrow> jsstring) \<Rightarrow> (jsstring \<Rightarrow> (jsstring \<Rightarrow> bool) option) \<Rightarrow> process_env
     \<Rightarrow> config option" where
  "configFromEnv toLowerCase newRegExp env =
     map_option
       (\<lambda>patterns.
          \<lparr>INJECT_HTML = orDefault (env_INJECT_HTML env) default_INJECT_HTML,
           INJECT_TARGET = orDefault (env_INJECT_TARGET env) (js ''</head>''),
           INJECT_MODE = toLowerCase (orDefault (env_INJECT_MODE env) (js ''before'')),
           INJECT_ONCE = (toLowerCase (orDefault (env_INJECT_ONCE env) (js ''true'')) = js ''true''),
           CT_MATCH = toLowerCase (orDefault (env_INJECT_CT_MATCH env) (js ''text/html'')),
           INJECT_IF_HEADER = toLowerCase (orDefault (env_INJECT_IF_HEADER env) []),
           EXCLUDE_PATTERNS = patterns\<rparr>)
       (those (map newRegExp (excludeSources env)))"

section \<open>Notions of the specification\<close>

text \<open>
  The number of positions of \<open>s\<close> at which \<open>m\<close> occurs literally, and a payload that
  consists of white space only (the empty payload included).
\<close>

definition occurrences :: "'a list \<Rightarrow> 'a list \<Rightarrow> nat" where
  "occurrences s m = length (filter (\<lambda>i. startsWith (drop i s) m) [0..<Suc (length s)])"

definition blank :: "jsstring \<Rightarrow> bool" where
  "blank s = list_all isWhiteSpace s"

text \<open>
  The path of a request: its URL up to the question mark (\<open>0x3F\<close>) that starts the query
  string.
\<close>

definition pathname :: "jsstring \<Rightarrow> jsstring" where
  "pathname u = takeWhile (\<lambda>c. c \<noteq> 0x3F) u"

section \<open>Concrete data for the examples\<close>

text \<open>
  \<open>toLowerCase\<close> on strings of code units below \<open>0x100\<close>, which is what the header object
  of an HTTP response holds: the upper-case letters of Basic Latin and Latin-1 Supplement
  are moved by \<open>0x20\<close>.
\<close>

definition lowerLatin1 :: "jsstring \<Rightarrow> jsstring" where
  "lowerLatin1 s =
     map (\<lambda>c. if (0x41 \<le> c \<and> c \<le> 0x5A) \<or> (0xC0 \<le> c \<and> c \<le> 0xD6) \<or> (0xD8 \<le> c \<and> c \<le> 0xDE)
              then c + 0x20 else c) s"

definition exampleConfig :: config where
  "exampleConfig =
     \<lparr>INJECT_HTML = js ''<i>x</i>'', INJECT_TARGET = js ''</head>'',
      INJECT_MODE = js ''before'', INJECT_ONCE = True,
      CT_MATCH = js ''text/html'', INJECT_IF_HEADER = [],
      EXCLUDE_PATTERNS = [\<lambda>path. startsWith path (js ''/wp-admin'')]\<rparr>"

definition exampleResponse :: proxyRes where
  "exampleResponse =
     \<lparr>headers = [(js ''content-type'', js ''Text/HTML; charset=utf-8''),
                 (js ''content-length'', js ''13''),
                 (js ''x-powered-by'', js ''PHP'')]\<rparr>"

definition exampleRequest :: request where
  "exampleRequest = \<lparr>url = js ''/index.html'', skipInject = None\<rparr>"

text \<open>The same header names as in \<open>exampleResponse\<close>, with other values.\<close>

definition maskedResponse :: proxyRes where
  "maskedResponse =
     \<lparr>headers = [(js ''content-type'', js ''text/html''),
                 (js ''content-length'', js ''0''),
                 (js ''x-powered-by'', [])]\<rparr>"

definition jsonResponse :: proxyRes where
  "jsonResponse = \<lparr>headers = [(js ''content-type'', js ''application/json'')]\<rparr>"

text \<open>
  A stand-in for \<open>new RegExp\<close> that knows one source, \<open>^/wp-admin\<close>, and two environments
  with the configurations they start.
\<close>

definition wpAdminTest :: "jsstring \<Rightarrow> bool" where
  "wpAdminTest path = startsWith path (js ''/wp-admin'')"

definition exampleRegExp :: "jsstring \<Rightarrow> (jsstring \<Rightarrow> bool) option" where
  "exampleRegExp source = (if source = js ''^/wp-admin'' then Some wpAdminTest else None)"

definition exampleEnv :: process_env where
  "exampleEnv =
     \<lparr>env_INJECT_HTML = Some (js ''<i>x</i>''), env_INJECT_TARGET = None,
      env_INJECT_MODE = None, env_INJECT_ONCE = None, env_INJECT_CT_MATCH = None,
      env_INJECT_IF_HEADER = None, env_INJECT_EXCLUDE_PATHS = Some (js ''^/wp-admin'')\<rparr>"

definition exampleEnvConfig :: config where
  "exampleEnvConfig =
     \<lparr>INJECT_HTML = js ''<i>x</i>'', INJECT_TARGET = js ''</head>'',
      INJECT_MODE = js ''before'', INJECT_ONCE = True,
      CT_MATCH = js ''text/html'', INJECT_IF_HEADER = [],
      EXCLUDE_PATTERNS = [wpAdminTest]\<rparr>"

text \<open>A blank payload and an empty marker variable.\<close>

definition blankEnv :: process_env where
  "blankEnv = exampleEnv\<lparr>env_INJECT_HTML := Some (js ''  ''), env_INJECT_TARGET := Some []\<rparr>"

definition blankEnvConfig :: config where
  "blankEnvConfig = exampleEnvConfig\<lparr>INJECT_HTML := js ''  ''\<rparr>"

text \<open>
  The \<open>test\<close> function of the pattern for a URL that ends in \<open>.php\<close>, a configuration that
  excludes by it, and a request for such a path with a query string.
\<close>

definition phpSuffixTest :: "jsstring \<Rightarrow> bool" where
  "phpSuffixTest u = startsWith (rev u) (rev (js ''.php''))"

definition phpConfig :: config where
  "phpConfig = exampleConfig\<lparr>EXCLUDE_PATTERNS := [phpSuffixTest]\<rparr>"

definition loginRequest :: request where
  "loginRequest = \<lparr>url = js ''/login.php?next=/'', skipInject = None\<rparr>"

text \<open>A payload with a character outside ASCII: U+00E9, one code unit, two bytes in UTF-8.\<close>

definition accentConfig :: config where
  "accentConfig = exampleConfig\<lparr>INJECT_HTML := js ''<i>'' @ [0xE9] @ js ''</i>''\<rparr>"

definition headBuffer :: buffer where
  "headBuffer = utf8_encode (js ''<head></head>'')"

section \<open>Facts about searching and trimming\<close>

lemma startsWith_Nil [simp]: "startsWith s []"
  by (simp add: startsWith_def)

lemma indexOf_empty_pattern [simp]: "indexOf s [] = Some 0"
  by (cases s) simp_all

lemma indexOf_Some_iff:
  "indexOf s m = Some j \<longleftrightarrow>
     j \<le> length s \<and> startsWith (drop j s) m \<and> (\<forall>i<j. \<not> startsWith (drop i s) m)"
proof (induction s arbitrary: j)
  case Nil
  show ?case by (auto simp: startsWith_def)
next
  case (Cons c cs)
  show ?case
  proof (cases "startsWith (c # cs) m")
    case True
    have "j = 0" if "\<forall>i<j. \<not> startsWith (drop i (c # cs)) m"
    proof (rule ccontr)
      assume "j \<noteq> 0"
      then have "0 < j" by simp
      with that have "\<not> startsWith (drop 0 (c # cs)) m" by blast
      with True show False by simp
    qed
    with True show ?thesis by auto
  next
    case False
    show ?thesis
    proof (cases j)
      case 0
      with False show ?thesis by simp
    next
      case (Suc k)
      have "(\<forall>i<Suc k. \<not> startsWith (drop i (c # cs)) m)
              \<longleftrightarrow> (\<forall>i<k. \<not> startsWith (drop i cs) m)"
        using False by (simp add: All_less_Suc2)
      with False Suc Cons.IH [of k] show ?thesis by simp
    qed
  qed
qed

lemma indexOf_None_iff:
  "indexOf s m = None \<longleftrightarrow> (\<forall>i\<le>length s. \<not> startsWith (drop i s) m)"
proof (induction s)
  case Nil
  show ?case by (auto simp: startsWith_def)
next
  case (Cons c cs)
  have "(\<forall>i\<le>Suc (length cs). \<not> startsWith (drop i (c # cs)) m)
          \<longleftrightarrow> \<not> startsWith (c # cs) m \<and> (\<forall>i\<le>length cs. \<not> startsWith (drop i cs) m)"
    by (simp add: All_less_Suc2 flip: less_Suc_eq_le)
  with Cons.IH show ?case by simp
qed

lemma occurrences_zero_iff: "occurrences s m = 0 \<longleftrightarrow> indexOf s m = None"
  by (auto simp: occurrences_def indexOf_None_iff filter_empty_conv simp flip: less_Suc_eq_le)

lemma js_includes_iff: "js_includes s m \<longleftrightarrow> 0 < occurrences s m"
  using occurrences_zero_iff [of s m] by (auto simp: js_includes_def)

lemma js_trim_empty_iff: "js_trim s = [] \<longleftrightarrow> blank s"
proof
  assume "js_trim s = []"
  then have all: "\<forall>x\<in>set (dropWhile isWhiteSpace s). isWhiteSpace x"
    by (simp add: js_trim_def)
  have "dropWhile isWhiteSpace s = []"
  proof (rule ccontr)
    assume nonempty: "dropWhile isWhiteSpace s \<noteq> []"
    then have "\<not> isWhiteSpace (hd (dropWhile isWhiteSpace s))"
      by (rule hd_dropWhile)
    moreover have "hd (dropWhile isWhiteSpace s) \<in> set (dropWhile isWhiteSpace s)"
      using nonempty by (rule hd_in_set)
    ultimately show False using all by blast
  qed
  then show "blank s"
    by (simp add: blank_def list_all_iff)
next
  assume "blank s"
  then have dropped: "dropWhile isWhiteSpace s = []"
    by (simp add: blank_def list_all_iff)
  show "js_trim s = []"
    unfolding js_trim_def dropped by simp
qed

section \<open>Facts about replacing, splitting and counting\<close>

lemma getSubstitution_no_pattern:
  "\<not> hasReplacementPattern template \<Longrightarrow>
     getSubstitution matched str position template = template"
  by (induction matched str position template rule: getSubstitution.induct) auto

lemma no_dollar_no_pattern: "0x24 \<notin> set template \<Longrightarrow> \<not> hasReplacementPattern template"
  by (induction template rule: hasReplacementPattern.induct) auto

lemma js_replace_literal:
  assumes "indexOf s m = Some p" and "\<not> hasReplacementPattern u"
  shows "js_replace s m u = take p s @ u @ drop (p + length m) s"
  using assms by (simp add: js_replace_def getSubstitution_no_pattern)

lemma js_replace_first:
  assumes "indexOf s m = Some p"
  shows "\<exists>x. js_replace s m u = take p s @ x @ drop (p + length m) s"
  using assms by (simp add: js_replace_def)

lemma split_loop_None: "indexOf s m = None \<Longrightarrow> split_loop s m = [s]"
  by (simp add: split_loop.simps)

lemma split_loop_Some:
  "m \<noteq> [] \<Longrightarrow> indexOf s m = Some j \<Longrightarrow>
     split_loop s m = take j s # split_loop (drop (j + length m) s) m"
  by (subst split_loop.simps) simp

lemma indexOf_occurs:
  assumes "indexOf s m = Some j"
  shows "s = take j s @ m @ drop (j + length m) s"
proof -
  from assms have "startsWith (drop j s) m"
    by (simp add: indexOf_Some_iff)
  then have "take (length m) (drop j s) = m"
    by (simp add: startsWith_def)
  then have "drop j s = m @ drop (length m) (drop j s)"
    by (metis append_take_drop_id)
  then have "drop j s = m @ drop (j + length m) s"
    by (simp add: add.commute)
  then show ?thesis
    by (metis append_take_drop_id)
qed

lemma js_join_Cons: "ps \<noteq> [] \<Longrightarrow> js_join (x # ps) sep = x @ sep @ js_join ps sep"
  by (cases ps) simp_all

lemma split_loop_nonempty: "split_loop s m \<noteq> []"
  by (subst split_loop.simps) (simp split: option.splits)

lemma js_join_split_loop: "js_join (split_loop s m) m = s"
proof (induction s m rule: split_loop.induct)
  case (1 s m)
  show ?case
  proof (cases "m = []")
    case True
    then show ?thesis by (simp add: split_loop.simps)
  next
    case False
    show ?thesis
    proof (cases "indexOf s m")
      case None
      then show ?thesis by (simp add: split_loop_None)
    next
      case (Some j)
      with False "1.IH" have "js_join (split_loop (drop (j + length m) s) m) m = drop (j + length m) s"
        by simp
      with False Some indexOf_occurs [OF Some] show ?thesis
        by (simp add: split_loop_Some js_join_Cons split_loop_nonempty)
    qed
  qed
qed

lemma js_join_singletons: "js_join (map (\<lambda>c. [c]) s) [] = s"
  by (induction s rule: induct_list012) simp_all

lemma js_join_js_split: "js_join (js_split s m) m = s"
  by (simp add: js_split_def js_join_split_loop js_join_singletons)

lemma positions: "set (filter P [0..<Suc n]) = {i. i \<le> n \<and> P i}"
proof -
  have "set [0..<Suc n] = {i. i \<le> n}"
    by (simp only: set_upt) auto
  then show ?thesis
    by (simp only: set_filter) auto
qed

lemma occurrences_card:
  "occurrences s m = card {i. i \<le> length s \<and> startsWith (drop i s) m}"
proof -
  have "occurrences s m = card (set (filter (\<lambda>i. startsWith (drop i s) m) [0..<Suc (length s)]))"
    unfolding occurrences_def by (rule distinct_card [symmetric]) (simp del: upt_Suc)
  then show ?thesis
    by (simp only: positions)
qed

lemma scan_once:
  assumes once: "occurrences s m = 1" and nonempty: "m \<noteq> []"
  shows "\<exists>p. indexOf s m = Some p \<and> indexOf (drop (p + length m) s) m = None"
proof -
  let ?P = "{i. i \<le> length s \<and> startsWith (drop i s) m}"
  from once have "card ?P = 1"
    by (simp only: occurrences_card)
  then obtain p where P: "?P = {p}"
    by (rule card_1_singletonE)
  have "p \<in> ?P"
    by (simp only: P singletonI)
  then have p: "p \<le> length s" "startsWith (drop p s) m"
    by blast+
  have only: "i = p" if "i \<le> length s" "startsWith (drop i s) m" for i
  proof -
    from that have "i \<in> ?P" by blast
    then have "i \<in> {p}" by (simp only: P)
    then show ?thesis by blast
  qed
  have "\<not> startsWith (drop i s) m" if "i < p" for i
  proof
    assume "startsWith (drop i s) m"
    moreover from that p(1) have "i \<le> length s" by arith
    ultimately have "i = p" by (rule only [rotated])
    with that show False by simp
  qed
  with p have first: "indexOf s m = Some p"
    by (simp only: indexOf_Some_iff) blast
  then have bound: "p + length m \<le> length s"
    by (rule indexOf_bound)
  have "\<not> startsWith (drop i (drop (p + length m) s)) m"
    if "i \<le> length (drop (p + length m) s)" for i
  proof
    assume "startsWith (drop i (drop (p + length m) s)) m"
    then have "startsWith (drop (i + (p + length m)) s) m"
      by (simp only: drop_drop)
    moreover have "i + (p + length m) \<le> length s"
      using that bound by simp
    ultimately have "i + (p + length m) = p"
      by (rule only [rotated])
    with nonempty show False by simp
  qed
  then have "indexOf (drop (p + length m) s) m = None"
    by (simp only: indexOf_None_iff) blast
  with first show ?thesis by blast
qed

lemma startsWith_append [simp]: "startsWith (m @ r) m"
  by (simp add: startsWith_def)

lemma scan_twice:
  assumes twice: "occurrences (a @ m @ b @ m @ c) m = 2" and nonempty: "m \<noteq> []"
  shows "indexOf (a @ m @ b @ m @ c) m = Some (length a)"
    and "indexOf (b @ m @ c) m = Some (length b)"
    and "indexOf c m = None"
proof -
  let ?s = "a @ m @ b @ m @ c"
  let ?P = "{i. i \<le> length ?s \<and> startsWith (drop i ?s) m}"
  let ?q = "length a + length m + length b"
  have fin: "finite ?P"
    by simp
  have card: "card ?P = 2"
    using twice by (simp only: occurrences_card)
  have in1: "length a \<in> ?P"
    by simp
  have "drop ?q ?s = m @ c"
    by simp
  then have in2: "?q \<in> ?P"
    by (simp del: drop_append)
  have distinct: "length a \<noteq> ?q"
    using nonempty by simp
  have "{length a, ?q} = ?P"
  proof (rule card_subset_eq [OF fin])
    show "{length a, ?q} \<subseteq> ?P"
      using in1 in2 by blast
    show "card {length a, ?q} = card ?P"
      using distinct card by simp
  qed
  then have only: "i = length a \<or> i = ?q"
    if "i \<le> length ?s" "startsWith (drop i ?s) m" for i
    using that by blast
  have before: "\<not> startsWith (drop i ?s) m" if "i < length a" for i
  proof
    assume "startsWith (drop i ?s) m"
    moreover from that have "i \<le> length ?s" by simp
    ultimately have "i = length a \<or> i = ?q" by (rule only [rotated])
    with that show False by arith
  qed
  show "indexOf ?s m = Some (length a)"
    unfolding indexOf_Some_iff using before by simp
  have between: "\<not> startsWith (drop i (b @ m @ c)) m" if "i < length b" for i
  proof
    assume "startsWith (drop i (b @ m @ c)) m"
    moreover have "drop (i + (length a + length m)) ?s = drop i (b @ m @ c)"
      by (simp add: drop_append)
    ultimately have "startsWith (drop (i + (length a + length m)) ?s) m"
      by (simp only:)
    moreover from that have "i + (length a + length m) \<le> length ?s" by simp
    ultimately have "i + (length a + length m) = length a \<or> i + (length a + length m) = ?q"
      by (rule only [rotated])
    with that nonempty show False by simp
  qed
  show "indexOf (b @ m @ c) m = Some (length b)"
    unfolding indexOf_Some_iff using between by simp
  have after: "\<not> startsWith (drop i c) m" if "i \<le> length c" for i
  proof
    assume "startsWith (drop i c) m"
    moreover have "drop (i + (?q + length m)) ?s = drop i c"
      by (simp add: drop_append)
    ultimately have "startsWith (drop (i + (?q + length m)) ?s) m"
      by (simp only:)
    moreover from that have "i + (?q + length m) \<le> length ?s" by simp
    ultimately have "i + (?q + length m) = length a \<or> i + (?q + length m) = ?q"
      by (rule only [rotated])
    with nonempty show False by simp
  qed
  then show "indexOf c m = None"
    unfolding indexOf_None_iff by blast
qed

section \<open>The injector with an insertion unit free of replacement patterns\<close>

lemma payload_INJECT_ONCE [simp]: "payload (cfg\<lparr>INJECT_ONCE := b\<rparr>) = payload cfg"
  by (simp add: payload_def)

lemma inject_once_eq_all:
  assumes "occurrences html (INJECT_TARGET cfg) = 1"
    and "INJECT_TARGET cfg \<noteq> []"
    and "\<not> hasReplacementPattern (payload cfg)"
  shows "injectIntoHtml (cfg\<lparr>INJECT_ONCE := True\<rparr>) html
       = injectIntoHtml (cfg\<lparr>INJECT_ONCE := False\<rparr>) html"
proof -
  from scan_once [OF assms(1,2)] obtain p where
    first: "indexOf html (INJECT_TARGET cfg) = Some p" and
    rest: "indexOf (drop (p + length (INJECT_TARGET cfg)) html) (INJECT_TARGET cfg) = None"
    by blast
  have unit: "payload (cfg\<lparr>INJECT_ONCE := b\<rparr>) = payload cfg" for b
    by (simp add: payload_def)
  have "js_replace html (INJECT_TARGET cfg) (payload cfg)
      = js_join (js_split html (INJECT_TARGET cfg)) (payload cfg)"
    using first rest assms(2,3)
    by (simp add: js_replace_literal js_split_def split_loop_Some split_loop_None)
  then show ?thesis
    by (simp add: injectIntoHtml_def Let_def unit)
qed


lemma inject_first_literal:
  assumes "indexOf html (INJECT_TARGET cfg) = Some p"
    and "\<not> blank (INJECT_HTML cfg)"
    and "INJECT_ONCE cfg"
    and "\<not> hasReplacementPattern (payload cfg)"
  shows "out (injectIntoHtml cfg html)
       = take p html
           @ (if INJECT_MODE cfg = js ''after'' then INJECT_TARGET cfg @ INJECT_HTML cfg
              else INJECT_HTML cfg @ INJECT_TARGET cfg)
           @ drop (p + length (INJECT_TARGET cfg)) html"
proof -
  have "out (injectIntoHtml cfg html) = js_replace html (INJECT_TARGET cfg) (payload cfg)"
    using assms(1-3) by (simp add: injectIntoHtml_def Let_def js_trim_empty_iff js_includes_def)
  also have "\<dots> = take p html @ payload cfg @ drop (p + length (INJECT_TARGET cfg)) html"
    using assms(1,4) by (rule js_replace_literal)
  finally show ?thesis
    by (simp add: payload_def)
qed

lemma inject_all_pieces:
  assumes "\<not> blank (INJECT_HTML cfg)" and "\<not> INJECT_ONCE cfg"
  shows "out (injectIntoHtml cfg html) = js_join (js_split html (INJECT_TARGET cfg)) (payload cfg)"
proof (cases "js_includes html (INJECT_TARGET cfg)")
  case True
  with assms show ?thesis
    by (simp add: injectIntoHtml_def Let_def js_trim_empty_iff)
next
  case False
  then have none: "indexOf html (INJECT_TARGET cfg) = None"
    by (simp add: js_includes_def)
  then have "INJECT_TARGET cfg \<noteq> []"
    by auto
  with none have "js_split html (INJECT_TARGET cfg) = [html]"
    by (simp add: js_split_def split_loop_None)
  with False show ?thesis
    by (simp add: injectIntoHtml_def)
qed

lemma inject_twice_all:
  assumes twice: "occurrences (a @ INJECT_TARGET cfg @ b @ INJECT_TARGET cfg @ c) (INJECT_TARGET cfg) = 2"
    and nonempty: "INJECT_TARGET cfg \<noteq> []"
    and payload: "\<not> blank (INJECT_HTML cfg)"
  shows "out (injectIntoHtml (cfg\<lparr>INJECT_ONCE := False\<rparr>)
                (a @ INJECT_TARGET cfg @ b @ INJECT_TARGET cfg @ c))
           = a @ payload cfg @ b @ payload cfg @ c"
proof -
  let ?m = "INJECT_TARGET cfg"
  let ?s = "a @ ?m @ b @ ?m @ c"
  note scan = scan_twice [OF twice nonempty]
  have "js_split ?s ?m = [a, b, c]"
    using nonempty scan by (simp add: js_split_def split_loop_Some split_loop_None)
  moreover have "js_includes ?s ?m"
    using scan(1) by (simp add: js_includes_def)
  ultimately show ?thesis
    using payload by (simp add: injectIntoHtml_def Let_def js_trim_empty_iff)
qed

lemma inject_twice_first:
  assumes twice: "occurrences (a @ INJECT_TARGET cfg @ b @ INJECT_TARGET cfg @ c) (INJECT_TARGET cfg) = 2"
    and nonempty: "INJECT_TARGET cfg \<noteq> []"
    and payload: "\<not> blank (INJECT_HTML cfg)"
  shows "\<exists>x. out (injectIntoHtml (cfg\<lparr>INJECT_ONCE := True\<rparr>)
                (a @ INJECT_TARGET cfg @ b @ INJECT_TARGET cfg @ c))
           = a @ x @ b @ INJECT_TARGET cfg @ c"
    and "\<not> hasReplacementPattern (payload cfg) \<Longrightarrow>
         out (injectIntoHtml (cfg\<lparr>INJECT_ONCE := True\<rparr>)
                (a @ INJECT_TARGET cfg @ b @ INJECT_TARGET cfg @ c))
           = a @ payload cfg @ b @ INJECT_TARGET cfg @ c"
proof -
  let ?m = "INJECT_TARGET cfg"
  let ?s = "a @ ?m @ b @ ?m @ c"
  note scan = scan_twice [OF twice nonempty]
  have found: "js_includes ?s ?m"
    using scan(1) by (simp add: js_includes_def)
  then have once: "out (injectIntoHtml (cfg\<lparr>INJECT_ONCE := True\<rparr>) ?s)
      = js_replace ?s ?m (payload cfg)"
    using payload by (simp add: injectIntoHtml_def Let_def js_trim_empty_iff)
  from js_replace_first [OF scan(1), of "payload cfg"]
  show "\<exists>x. out (injectIntoHtml (cfg\<lparr>INJECT_ONCE := True\<rparr>) ?s) = a @ x @ b @ ?m @ c"
    by (simp add: once)
  show "out (injectIntoHtml (cfg\<lparr>INJECT_ONCE := True\<rparr>) ?s) = a @ payload cfg @ b @ ?m @ c"
    if "\<not> hasReplacementPattern (payload cfg)"
    using js_replace_literal [OF scan(1) that] by (simp add: once)
qed

section \<open>Facts about the start-up constants\<close>

lemma orDefault_nonempty: "d \<noteq> [] \<Longrightarrow> orDefault v d \<noteq> []"
  by (simp add: orDefault_def split: option.splits)

text \<open>
  Payload and marker are never empty in a process that has started: an empty variable is
  replaced by its default. The payload can still be blank.
\<close>

lemma configFromEnv_nonempty:
  assumes "configFromEnv toLowerCase newRegExp env = Some cfg"
  shows "INJECT_HTML cfg \<noteq> []" and "INJECT_TARGET cfg \<noteq> []"
proof -
  have "default_INJECT_HTML \<noteq> []" and "js ''</head>'' \<noteq> []"
    by (simp_all add: default_INJECT_HTML_def js_def)
  then have "orDefault (env_INJECT_HTML env) default_INJECT_HTML \<noteq> []"
    and "orDefault (env_INJECT_TARGET env) (js ''</head>'') \<noteq> []"
    by (simp_all only: orDefault_nonempty not_False_eq_True)
  with assms show "INJECT_HTML cfg \<noteq> []" and "INJECT_TARGET cfg \<noteq> []"
    by (auto simp: configFromEnv_def)
qed

lemma configFromEnv_lowercased:
  assumes "configFromEnv toLowerCase newRegExp env = Some cfg"
  shows "INJECT_MODE cfg = toLowerCase (orDefault (env_INJECT_MODE env) (js ''before''))"
    and "CT_MATCH cfg = toLowerCase (orDefault (env_INJECT_CT_MATCH env) (js ''text/html''))"
    and "INJECT_IF_HEADER cfg = toLowerCase (orDefault (env_INJECT_IF_HEADER env) [])"
  using assms by (auto simp: configFromEnv_def)

lemma configFromEnv_defaults:
  "orDefault None (js ''before'') = js ''before''"
  "orDefault (Some []) (js ''</head>'') = js ''</head>''"
  "orDefault (Some []) default_INJECT_HTML = default_INJECT_HTML"
  by (simp_all add: orDefault_def)

section \<open>Evaluating the examples\<close>

lemmas string_eval =
  js_def startsWith_def js_includes_def js_replace_def js_split_def split_loop.simps
  js_trim_def isWhiteSpace_def payload_def injectIntoHtml_def occurrences_def upt_rec

lemmas utf8_eval =
  utf8_decode_def utf8_init_def utf8_lead_def codeUnits_def encodeCodePoint_def
  isHighSurrogate_def isLowSurrogate_def byteLength_def decimal.simps

lemma headBuffer_decoded: "utf8_decode headBuffer = js ''<head></head>''"
  by (simp add: headBuffer_def js_def utf8_eval)

section \<open>The injector: when nothing is injected\<close>

lemma injectIntoHtml_noop:
  "blank (INJECT_HTML cfg) \<or> occurrences html (INJECT_TARGET cfg) = 0 \<Longrightarrow>
     injectIntoHtml cfg html = \<lparr>out = html, changed = False\<rparr>"
  by (auto simp: injectIntoHtml_def js_trim_empty_iff js_includes_iff)

text \<open>
  C1. For every body and every configuration of a started process, the injector returns
  the body unchanged with \<open>changed = false\<close> whenever the configured payload is empty or
  blank, or the configured marker is the empty string, or the marker does not occur
  anywhere in the body.
\<close>

theorem C1_noop:
  assumes started: "configFromEnv toLowerCase newRegExp env = Some cfg"
    and idle: "INJECT_HTML cfg = [] \<or> blank (INJECT_HTML cfg) \<or> INJECT_TARGET cfg = []
      \<or> occurrences html (INJECT_TARGET cfg) = 0"
  shows "injectIntoHtml cfg html = \<lparr>out = html, changed = False\<rparr>"
proof -
  from started have marker: "INJECT_TARGET cfg \<noteq> []"
    by (rule configFromEnv_nonempty)
  have empty: "INJECT_HTML cfg = [] \<longrightarrow> blank (INJECT_HTML cfg)"
    by (simp add: blank_def)
  from idle marker empty
  have "blank (INJECT_HTML cfg) \<or> occurrences html (INJECT_TARGET cfg) = 0"
    by auto
  then show ?thesis
    by (rule injectIntoHtml_noop)
qed

text \<open>
  A process started with a blank payload and an empty marker variable (which becomes
  \<open></head>\<close>), and a process with a payload whose body lacks the marker.
\<close>

theorem C1_noop_witness:
  "configFromEnv lowerLatin1 exampleRegExp blankEnv = Some blankEnvConfig
   \<and> blank (INJECT_HTML blankEnvConfig)
   \<and> INJECT_TARGET blankEnvConfig = js ''</head>''
   \<and> injectIntoHtml blankEnvConfig (js ''<head></head>'')
       = \<lparr>out = js ''<head></head>'', changed = False\<rparr>
   \<and> configFromEnv lowerLatin1 exampleRegExp exampleEnv = Some exampleEnvConfig
   \<and> occurrences (js ''<head><body>'') (INJECT_TARGET exampleEnvConfig) = 0
   \<and> injectIntoHtml exampleEnvConfig (js ''<head><body>'')
       = \<lparr>out = js ''<head><body>'', changed = False\<rparr>"
proof -
  have sources: "excludeSources exampleEnv = [js ''^/wp-admin'']"
    and sources': "excludeSources blankEnv = [js ''^/wp-admin'']"
    by (simp_all add: excludeSources_def blankEnv_def exampleEnv_def orDefault_def string_eval)
  have started: "configFromEnv lowerLatin1 exampleRegExp exampleEnv = Some exampleEnvConfig"
    unfolding configFromEnv_def sources
    by (simp add: exampleRegExp_def exampleEnvConfig_def exampleEnv_def orDefault_def
        lowerLatin1_def js_def)
  have started': "configFromEnv lowerLatin1 exampleRegExp blankEnv = Some blankEnvConfig"
    unfolding configFromEnv_def sources'
    by (simp add: exampleRegExp_def blankEnvConfig_def exampleEnvConfig_def blankEnv_def
        exampleEnv_def orDefault_def lowerLatin1_def js_def)
  have empty: "blank (INJECT_HTML blankEnvConfig)"
    by (simp add: blankEnvConfig_def blank_def js_def isWhiteSpace_def)
  have marker: "INJECT_TARGET blankEnvConfig = js ''</head>''"
    by (simp add: blankEnvConfig_def exampleEnvConfig_def)
  have absent: "occurrences (js ''<head><body>'') (INJECT_TARGET exampleEnvConfig) = 0"
    by (simp add: exampleEnvConfig_def string_eval)
  show ?thesis
    using started started' empty marker absent
      C1_noop [OF started', where html = "js ''<head></head>''"]
      C1_noop [OF started, where html = "js ''<head><body>''"]
    by simp
qed

text \<open>
  The function by itself, given an empty marker, is not a no-op: the empty string occurs in
  every body, at position 0, and the payload is put in front of the body. No started
  process has such a marker (lemma \<open>configFromEnv_nonempty\<close>).
\<close>

lemma empty_marker_prepends:
  "injectIntoHtml (exampleConfig\<lparr>INJECT_TARGET := []\<rparr>) (js ''<p>'')
     = \<lparr>out = js ''<i>x</i><p>'', changed = True\<rparr>"
  by (simp add: exampleConfig_def string_eval)

section \<open>The injector: first occurrence and all occurrences\<close>

text \<open>
  C2 (as amended). For a body \<open>a @ marker @ b @ marker @ c\<close> in which the marker occurs at
  exactly these two positions, with a non-empty marker and a payload that is not blank: the
  policy ALL replaces both occurrences by the insertion unit; FIRST_ONLY replaces the
  first occurrence only and leaves the second marker in place, and what it puts for the
  first occurrence is the insertion unit whenever the unit holds no replacement pattern.
\<close>

theorem C2_twice:
  assumes "occurrences (a @ INJECT_TARGET cfg @ b @ INJECT_TARGET cfg @ c) (INJECT_TARGET cfg) = 2"
    and "INJECT_TARGET cfg \<noteq> []"
    and "\<not> blank (INJECT_HTML cfg)"
  shows "out (injectIntoHtml (cfg\<lparr>INJECT_ONCE := False\<rparr>)
                (a @ INJECT_TARGET cfg @ b @ INJECT_TARGET cfg @ c))
           = a @ payload cfg @ b @ payload cfg @ c
       \<and> (\<exists>x. out (injectIntoHtml (cfg\<lparr>INJECT_ONCE := True\<rparr>)
                (a @ INJECT_TARGET cfg @ b @ INJECT_TARGET cfg @ c))
           = a @ x @ b @ INJECT_TARGET cfg @ c)
       \<and> (\<not> hasReplacementPattern (payload cfg) \<longrightarrow>
            out (injectIntoHtml (cfg\<lparr>INJECT_ONCE := True\<rparr>)
                (a @ INJECT_TARGET cfg @ b @ INJECT_TARGET cfg @ c))
           = a @ payload cfg @ b @ INJECT_TARGET cfg @ c)"
proof (intro conjI impI)
  show "out (injectIntoHtml (cfg\<lparr>INJECT_ONCE := False\<rparr>)
      (a @ INJECT_TARGET cfg @ b @ INJECT_TARGET cfg @ c))
      = a @ payload cfg @ b @ payload cfg @ c"
    using assms by (rule inject_twice_all)
  show "\<exists>x. out (injectIntoHtml (cfg\<lparr>INJECT_ONCE := True\<rparr>)
      (a @ INJECT_TARGET cfg @ b @ INJECT_TARGET cfg @ c))
      = a @ x @ b @ INJECT_TARGET cfg @ c"
    using assms by (rule inject_twice_first(1))
  show "out (injectIntoHtml (cfg\<lparr>INJECT_ONCE := True\<rparr>)
      (a @ INJECT_TARGET cfg @ b @ INJECT_TARGET cfg @ c))
      = a @ payload cfg @ b @ INJECT_TARGET cfg @ c"
    if "\<not> hasReplacementPattern (payload cfg)"
    using assms that by (rule inject_twice_first(2))
qed

text \<open>
  A payload with a dollar sign that starts no replacement pattern, \<open><b>$(f)</b>\<close>, is
  inserted as it is under both policies.
\<close>

theorem C2_twice_witness:
  "occurrences
       (js ''a'' @ INJECT_TARGET (exampleConfig\<lparr>INJECT_HTML := js ''<b>$(f)</b>''\<rparr>) @ js ''b''
          @ INJECT_TARGET (exampleConfig\<lparr>INJECT_HTML := js ''<b>$(f)</b>''\<rparr>) @ js ''c'')
       (INJECT_TARGET (exampleConfig\<lparr>INJECT_HTML := js ''<b>$(f)</b>''\<rparr>)) = 2
   \<and> INJECT_TARGET (exampleConfig\<lparr>INJECT_HTML := js ''<b>$(f)</b>''\<rparr>) \<noteq> []
   \<and> \<not> blank (INJECT_HTML (exampleConfig\<lparr>INJECT_HTML := js ''<b>$(f)</b>''\<rparr>))
   \<and> \<not> hasReplacementPattern (payload (exampleConfig\<lparr>INJECT_HTML := js ''<b>$(f)</b>''\<rparr>))
   \<and> out (injectIntoHtml (exampleConfig\<lparr>INJECT_HTML := js ''<b>$(f)</b>'', INJECT_ONCE := False\<rparr>)
            (js ''a</head>b</head>c''))
       = js ''a<b>$(f)</b></head>b<b>$(f)</b></head>c''
   \<and> out (injectIntoHtml (exampleConfig\<lparr>INJECT_HTML := js ''<b>$(f)</b>'', INJECT_ONCE := True\<rparr>)
            (js ''a</head>b</head>c''))
       = js ''a<b>$(f)</b></head>b</head>c''"
proof -
  let ?cfg = "exampleConfig\<lparr>INJECT_HTML := js ''<b>$(f)</b>''\<rparr>"
  have marker: "INJECT_TARGET ?cfg = js ''</head>''"
    and unit: "payload ?cfg = js ''<b>$(f)</b></head>''"
    by (simp_all add: exampleConfig_def payload_def js_def)
  have twice: "occurrences
      (js ''a'' @ INJECT_TARGET ?cfg @ js ''b'' @ INJECT_TARGET ?cfg @ js ''c'')
      (INJECT_TARGET ?cfg) = 2"
    by (simp add: exampleConfig_def string_eval)
  have nonempty: "INJECT_TARGET ?cfg \<noteq> []"
    by (simp add: exampleConfig_def js_def)
  have present: "\<not> blank (INJECT_HTML ?cfg)"
    by (simp add: blank_def js_def isWhiteSpace_def)
  have literal: "\<not> hasReplacementPattern (payload ?cfg)"
    unfolding unit by (simp add: js_def)
  have body: "js ''a'' @ js ''</head>'' @ js ''b'' @ js ''</head>'' @ js ''c''
      = js ''a</head>b</head>c''"
    and first: "js ''a'' @ js ''<b>$(f)</b></head>'' @ js ''b'' @ js ''</head>'' @ js ''c''
      = js ''a<b>$(f)</b></head>b</head>c''"
    and both: "js ''a'' @ js ''<b>$(f)</b></head>'' @ js ''b'' @ js ''<b>$(f)</b></head>'' @ js ''c''
      = js ''a<b>$(f)</b></head>b<b>$(f)</b></head>c''"
    by (simp_all add: js_def)
  note claim = C2_twice [OF twice nonempty present]
  have "out (injectIntoHtml (?cfg\<lparr>INJECT_ONCE := False\<rparr>)
        (js ''a'' @ INJECT_TARGET ?cfg @ js ''b'' @ INJECT_TARGET ?cfg @ js ''c''))
        = js ''a'' @ payload ?cfg @ js ''b'' @ payload ?cfg @ js ''c''"
    by (rule claim [THEN conjunct1])
  moreover have "out (injectIntoHtml (?cfg\<lparr>INJECT_ONCE := True\<rparr>)
        (js ''a'' @ INJECT_TARGET ?cfg @ js ''b'' @ INJECT_TARGET ?cfg @ js ''c''))
        = js ''a'' @ payload ?cfg @ js ''b'' @ INJECT_TARGET ?cfg @ js ''c''"
    by (rule claim [THEN conjunct2, THEN conjunct2, THEN mp, OF literal])
  ultimately have "out (injectIntoHtml (?cfg\<lparr>INJECT_ONCE := False\<rparr>) (js ''a</head>b</head>c''))
        = js ''a<b>$(f)</b></head>b<b>$(f)</b></head>c''"
    and "out (injectIntoHtml (?cfg\<lparr>INJECT_ONCE := True\<rparr>) (js ''a</head>b</head>c''))
        = js ''a<b>$(f)</b></head>b</head>c''"
    by (simp_all only: marker unit body first both)
  with twice nonempty present literal show ?thesis
    by (intro conjI)
qed

text \<open>
  C2 as stated asks for a non-empty payload only. A payload of one space is not empty, but
  it is blank, and the injector then replaces nothing under either policy.
\<close>

theorem C2_blank_payload_counterexample:
  "INJECT_HTML (exampleConfig\<lparr>INJECT_HTML := js '' ''\<rparr>) \<noteq> []
   \<and> INJECT_TARGET (exampleConfig\<lparr>INJECT_HTML := js '' ''\<rparr>) \<noteq> []
   \<and> occurrences (js ''a</head>b</head>c'')
         (INJECT_TARGET (exampleConfig\<lparr>INJECT_HTML := js '' ''\<rparr>)) = 2
   \<and> out (injectIntoHtml (exampleConfig\<lparr>INJECT_HTML := js '' '', INJECT_ONCE := False\<rparr>)
            (js ''a</head>b</head>c''))
       = js ''a</head>b</head>c''
   \<and> out (injectIntoHtml (exampleConfig\<lparr>INJECT_HTML := js '' '', INJECT_ONCE := True\<rparr>)
            (js ''a</head>b</head>c''))
       = js ''a</head>b</head>c''"
  by (simp add: exampleConfig_def string_eval)

text \<open>
  Two occurrences that overlap are not both replaced: the scan of \<open>split\<close> continues behind
  the occurrence it has found.
\<close>

lemma overlapping_occurrences:
  "occurrences (js ''a---b'') (js ''--'') = 2
   \<and> out (injectIntoHtml (exampleConfig\<lparr>INJECT_TARGET := js ''--'', INJECT_ONCE := False\<rparr>)
            (js ''a---b''))
       = js ''a<i>x</i>---b''"
  by (simp add: exampleConfig_def string_eval)

text \<open>
  With a replacement pattern in the insertion unit the path for FIRST_ONLY,
  \<open>html.replace(INJECT_TARGET, payload)\<close>, expands it: for the payload \<open><b>$$</b>\<close> the
  text put in front of the first marker is \<open><b>$</b>\<close>.
\<close>

lemma first_only_expands_dollar:
  "payload (exampleConfig\<lparr>INJECT_HTML := js ''<b>$$</b>''\<rparr>) = js ''<b>$$</b></head>''
   \<and> out (injectIntoHtml (exampleConfig\<lparr>INJECT_HTML := js ''<b>$$</b>''\<rparr>)
            (js ''a</head>b</head>c''))
       = js ''a<b>$</b></head>b</head>c''"
  by (simp add: exampleConfig_def string_eval)

text \<open>
  C3. Each replaced occurrence of the marker is replaced by exactly the insertion unit:
  marker then payload for AFTER, payload then marker for BEFORE. Lemma
  \<open>inject_first_literal\<close> shows this for FIRST_ONLY and an insertion unit without a
  replacement pattern, lemma \<open>inject_all_pieces\<close> for ALL and every insertion unit. With FIRST_ONLY,
  placement AFTER and the payload \<open><b>$&</b>\<close>, the text behind the marker is not the
  payload: the marker is copied into it.
\<close>

theorem C3_placement_at_dollar:
  "0 < occurrences (js ''<head></head>'')
         (INJECT_TARGET (exampleConfig\<lparr>INJECT_HTML := js ''<b>$&</b>'', INJECT_MODE := js ''after''\<rparr>))
   \<and> payload (exampleConfig\<lparr>INJECT_HTML := js ''<b>$&</b>'', INJECT_MODE := js ''after''\<rparr>)
       = js ''</head><b>$&</b>''
   \<and> out (injectIntoHtml
            (exampleConfig\<lparr>INJECT_HTML := js ''<b>$&</b>'', INJECT_MODE := js ''after''\<rparr>)
            (js ''<head></head>''))
       = js ''<head></head><b></head></b>''"
  by (simp add: exampleConfig_def string_eval)

text \<open>
  C4. For a body with the marker exactly once, FIRST_ONLY and ALL give the same output.
  Lemma \<open>inject_once_eq_all\<close> shows this for an insertion unit without a replacement
  pattern. For
  the payload \<open><script>p='$';</script>\<close> the two policies differ: ALL inserts the payload
  as it is, FIRST_ONLY expands the dollar sign and the apostrophe behind it to the text that
  follows the marker.
\<close>

theorem C4_first_only_differs_from_all:
  "occurrences (js ''<head></head><body>'')
       (INJECT_TARGET (exampleConfig\<lparr>INJECT_HTML := js ''<script>p='$';</script>''\<rparr>)) = 1
   \<and> out (injectIntoHtml
            (exampleConfig\<lparr>INJECT_HTML := js ''<script>p='$';</script>'', INJECT_ONCE := True\<rparr>)
            (js ''<head></head><body>''))
       = js ''<head><script>p='<body>;</script></head><body>''
   \<and> out (injectIntoHtml
            (exampleConfig\<lparr>INJECT_HTML := js ''<script>p='$';</script>'', INJECT_ONCE := False\<rparr>)
            (js ''<head></head><body>''))
       = js ''<head><script>p='$';</script></head><body>''"
  by (simp add: exampleConfig_def string_eval)

section \<open>The changed flag\<close>

text \<open>
  C5. For every body and every configuration, the changed flag is the result of comparing
  the output with the input.
\<close>

theorem C5_changed_is_comparison:
  "changed (injectIntoHtml cfg html) = (out (injectIntoHtml cfg html) \<noteq> html)"
  by (simp add: injectIntoHtml_def Let_def)

text \<open>
  A replacement that gives back the body: the marker is found at position 0 and the payload
  \<open>$`\<close> expands to the empty text in front of it.
\<close>

theorem C5_changed_is_comparison_witness:
  "0 < occurrences (js ''</head><body>'') (INJECT_TARGET (exampleConfig\<lparr>INJECT_HTML := js ''$`''\<rparr>))
   \<and> out (injectIntoHtml (exampleConfig\<lparr>INJECT_HTML := js ''$`''\<rparr>) (js ''</head><body>''))
       = js ''</head><body>''
   \<and> changed (injectIntoHtml (exampleConfig\<lparr>INJECT_HTML := js ''$`''\<rparr>) (js ''</head><body>''))
       = False"
proof -
  let ?cfg = "exampleConfig\<lparr>INJECT_HTML := js ''$`''\<rparr>"
  have found: "0 < occurrences (js ''</head><body>'') (INJECT_TARGET ?cfg)"
    by (simp add: exampleConfig_def string_eval)
  have same: "out (injectIntoHtml ?cfg (js ''</head><body>'')) = js ''</head><body>''"
    by (simp add: exampleConfig_def string_eval)
  show ?thesis
    using found same C5_changed_is_comparison [where cfg = ?cfg and html = "js ''</head><body>''"] by simp
qed

section \<open>The placement mode\<close>

text \<open>
  C10. For every placement mode other than \<open>after\<close> the insertion unit is payload then
  marker, and the injector does what it does for \<open>before\<close>.
\<close>

theorem C10_unrecognised_mode_is_before:
  "INJECT_MODE cfg \<noteq> js ''after'' \<Longrightarrow>
     payload cfg = INJECT_HTML cfg @ INJECT_TARGET cfg
     \<and> injectIntoHtml cfg html = injectIntoHtml (cfg\<lparr>INJECT_MODE := js ''before''\<rparr>) html"
  by (simp add: injectIntoHtml_def payload_def js_def)

theorem C10_unrecognised_mode_is_before_witness:
  "INJECT_MODE (exampleConfig\<lparr>INJECT_MODE := js ''aftr''\<rparr>) \<noteq> js ''after''
   \<and> payload (exampleConfig\<lparr>INJECT_MODE := js ''aftr''\<rparr>) = js ''<i>x</i></head>''
   \<and> injectIntoHtml (exampleConfig\<lparr>INJECT_MODE := js ''aftr''\<rparr>) (js ''<head></head>'')
       = \<lparr>out = js ''<head><i>x</i></head>'', changed = True\<rparr>"
proof -
  let ?cfg = "exampleConfig\<lparr>INJECT_MODE := js ''aftr''\<rparr>"
  have mode: "INJECT_MODE ?cfg \<noteq> js ''after''"
    by (simp add: js_def)
  have before: "injectIntoHtml (?cfg\<lparr>INJECT_MODE := js ''before''\<rparr>) (js ''<head></head>'')
      = \<lparr>out = js ''<head><i>x</i></head>'', changed = True\<rparr>"
    by (simp add: exampleConfig_def string_eval)
  have unit: "INJECT_HTML ?cfg @ INJECT_TARGET ?cfg = js ''<i>x</i></head>''"
    by (simp add: exampleConfig_def js_def)
  show ?thesis
    using mode before unit C10_unrecognised_mode_is_before [OF mode, where html = "js ''<head></head>''"]
    by simp
qed

section \<open>The interceptor\<close>

lemma map_of_assign: "map_of (assign hs k v) = (map_of hs)(k \<mapsto> v)"
  by (induction hs k v rule: assign.induct) auto

lemma isExcludedPath_iff:
  "isExcludedPath cfg path \<longleftrightarrow> (\<exists>rx \<in> set (EXCLUDE_PATTERNS cfg). rx path)"
  by (simp add: isExcludedPath_def list_ex_iff)

text \<open>
  C6. With a non-empty content-type filter, a response whose lower-cased content-type does
  not contain the filter is rejected and the interceptor gives back the buffer and the
  response object as they are, whatever the body; a response whose lower-cased content-type
  contains the filter is not rejected by this rule.
\<close>

theorem C6_content_type_filter:
  assumes "CT_MATCH cfg \<noteq> []"
  shows "(occurrences (contentType toLowerCase res) (CT_MATCH cfg) = 0 \<longrightarrow>
            contentTypeRejected toLowerCase cfg res
            \<and> onProxyRes toLowerCase cfg buf res req = (Buf buf, res))
       \<and> (0 < occurrences (contentType toLowerCase res) (CT_MATCH cfg) \<longrightarrow>
            \<not> contentTypeRejected toLowerCase cfg res)"
  using assms by (simp add: contentTypeRejected_def onProxyRes_def js_includes_iff)

theorem C6_content_type_filter_witness:
  "CT_MATCH exampleConfig \<noteq> []
   \<and> occurrences (contentType lowerLatin1 jsonResponse) (CT_MATCH exampleConfig) = 0
   \<and> 0 < occurrences (utf8_decode headBuffer) (INJECT_TARGET exampleConfig)
   \<and> onProxyRes lowerLatin1 exampleConfig headBuffer jsonResponse exampleRequest
       = (Buf headBuffer, jsonResponse)
   \<and> contentType lowerLatin1 exampleResponse = js ''text/html; charset=utf-8''
   \<and> 0 < occurrences (contentType lowerLatin1 exampleResponse) (CT_MATCH exampleConfig)
   \<and> \<not> contentTypeRejected lowerLatin1 exampleConfig exampleResponse"
proof -
  have filter: "CT_MATCH exampleConfig \<noteq> []"
    by (simp add: exampleConfig_def js_def)
  have json: "occurrences (contentType lowerLatin1 jsonResponse) (CT_MATCH exampleConfig) = 0"
    by (simp add: contentType_def jsonResponse_def lowerLatin1_def exampleConfig_def string_eval)
  have marker: "0 < occurrences (utf8_decode headBuffer) (INJECT_TARGET exampleConfig)"
    by (simp add: headBuffer_decoded exampleConfig_def string_eval)
  have ct: "contentType lowerLatin1 exampleResponse = js ''text/html; charset=utf-8''"
    by (simp add: contentType_def exampleResponse_def lowerLatin1_def js_def)
  have html: "0 < occurrences (contentType lowerLatin1 exampleResponse) (CT_MATCH exampleConfig)"
    by (simp add: ct exampleConfig_def string_eval)
  show ?thesis
    using filter json marker ct html
      C6_content_type_filter [OF filter, where toLowerCase = lowerLatin1 and res = jsonResponse
        and buf = headBuffer and req = exampleRequest]
      C6_content_type_filter [OF filter, where toLowerCase = lowerLatin1 and res = exampleResponse
        and buf = headBuffer and req = exampleRequest]
    by simp
qed

text \<open>
  C7. With a non-empty required header name, the rule fails exactly when no header name of
  the response lower-cases to the required name; the outcome of the rule depends on the
  names of the headers only; and when the rule fails the interceptor gives back the buffer
  and the response object as they are.
\<close>

theorem C7_required_header:
  assumes "INJECT_IF_HEADER cfg \<noteq> []"
  shows "(requiredHeaderMissing toLowerCase cfg res \<longleftrightarrow>
            \<not> (\<exists>name \<in> set (map fst (headers res)). toLowerCase name = INJECT_IF_HEADER cfg))
       \<and> (map fst (headers res') = map fst (headers res) \<longrightarrow>
            requiredHeaderMissing toLowerCase cfg res' = requiredHeaderMissing toLowerCase cfg res)
       \<and> (requiredHeaderMissing toLowerCase cfg res \<longrightarrow>
            onProxyRes toLowerCase cfg buf res req = (Buf buf, res))"
  using assms by (force simp: requiredHeaderMissing_def onProxyRes_def)

theorem C7_required_header_witness:
  "INJECT_IF_HEADER (exampleConfig\<lparr>INJECT_IF_HEADER := js ''x-cache''\<rparr>) \<noteq> []
   \<and> requiredHeaderMissing lowerLatin1 (exampleConfig\<lparr>INJECT_IF_HEADER := js ''x-cache''\<rparr>)
         exampleResponse
   \<and> onProxyRes lowerLatin1 (exampleConfig\<lparr>INJECT_IF_HEADER := js ''x-cache''\<rparr>)
         headBuffer exampleResponse exampleRequest
       = (Buf headBuffer, exampleResponse)
   \<and> INJECT_IF_HEADER (exampleConfig\<lparr>INJECT_IF_HEADER := js ''x-powered-by''\<rparr>) \<noteq> []
   \<and> \<not> requiredHeaderMissing lowerLatin1 (exampleConfig\<lparr>INJECT_IF_HEADER := js ''x-powered-by''\<rparr>)
         exampleResponse
   \<and> map fst (headers maskedResponse) = map fst (headers exampleResponse)
   \<and> \<not> requiredHeaderMissing lowerLatin1 (exampleConfig\<lparr>INJECT_IF_HEADER := js ''x-powered-by''\<rparr>)
         maskedResponse"
proof -
  let ?absent = "exampleConfig\<lparr>INJECT_IF_HEADER := js ''x-cache''\<rparr>"
  let ?present = "exampleConfig\<lparr>INJECT_IF_HEADER := js ''x-powered-by''\<rparr>"
  have name1: "INJECT_IF_HEADER ?absent \<noteq> []" and name2: "INJECT_IF_HEADER ?present \<noteq> []"
    by (simp_all add: js_def)
  have absent: "\<not> (\<exists>name \<in> set (map fst (headers exampleResponse)).
      lowerLatin1 name = INJECT_IF_HEADER ?absent)"
    by (simp add: exampleResponse_def lowerLatin1_def js_def)
  have present: "\<exists>name \<in> set (map fst (headers exampleResponse)).
      lowerLatin1 name = INJECT_IF_HEADER ?present"
    by (simp add: exampleResponse_def lowerLatin1_def js_def)
  have names: "map fst (headers maskedResponse) = map fst (headers exampleResponse)"
    by (simp add: maskedResponse_def exampleResponse_def)
  show ?thesis
    using name1 name2 absent present names
      C7_required_header [OF name1, where toLowerCase = lowerLatin1 and res = exampleResponse
        and res' = exampleResponse and buf = headBuffer and req = exampleRequest]
      C7_required_header [OF name2, where toLowerCase = lowerLatin1 and res = exampleResponse
        and res' = maskedResponse and buf = headBuffer and req = exampleRequest]
    by simp
qed

text \<open>
  A request that \<open>onProxyReq\<close> has marked comes back untouched: the mark is set when an
  exclusion pattern matches the URL of the request, and the interceptor, which does not
  read the patterns itself, then gives back the buffer and the response object as they are.
\<close>

lemma marked_request_untouched:
  assumes "isExcludedPath cfg (url req)"
  shows "skipInject (snd (onProxyReq toLowerCase cfg proxyReq req)) = Some True"
    and "onProxyRes toLowerCase cfg buf res (snd (onProxyReq toLowerCase cfg proxyReq req))
           = (Buf buf, res)"
    and "onProxyRes toLowerCase (cfg\<lparr>EXCLUDE_PATTERNS := patterns\<rparr>) buf res req'
           = onProxyRes toLowerCase cfg buf res req'"
  using assms
  by (simp_all add: onProxyReq_def onProxyRes_def contentTypeRejected_def
      requiredHeaderMissing_def injectIntoHtml_def payload_def)

text \<open>
  C8. A request whose path matches an exclusion pattern is forwarded untouched. The code
  tests \<open>req.url\<close>, the path together with the query string: for the pattern that matches
  a path ending in \<open>.php\<close> and the request \<open>/login.php?next=/\<close>, the path matches, the
  URL does not, the request is not marked and the response is rewritten.
\<close>

theorem C8_path_with_query_is_injected:
  "pathname (url loginRequest) = js ''/login.php''
   \<and> isExcludedPath phpConfig (pathname (url loginRequest))
   \<and> skipInject (snd (onProxyReq lowerLatin1 phpConfig [] loginRequest)) = Some False
   \<and> fst (onProxyRes lowerLatin1 phpConfig headBuffer exampleResponse
         (snd (onProxyReq lowerLatin1 phpConfig [] loginRequest)))
       = Str (js ''<head><i>x</i></head>'')
   \<and> map_of (headers (snd (onProxyRes lowerLatin1 phpConfig headBuffer exampleResponse
         (snd (onProxyReq lowerLatin1 phpConfig [] loginRequest))))) (js ''content-length'')
       = Some (js ''21'')"
proof -
  have path: "pathname (url loginRequest) = js ''/login.php''"
    by (simp add: pathname_def loginRequest_def js_def)
  have matches: "isExcludedPath phpConfig (pathname (url loginRequest))"
    by (simp add: path isExcludedPath_def phpConfig_def phpSuffixTest_def js_def startsWith_def)
  have mark: "snd (onProxyReq lowerLatin1 phpConfig [] loginRequest)
      = loginRequest\<lparr>skipInject := Some False\<rparr>"
    by (simp add: onProxyReq_def isExcludedPath_def phpConfig_def phpSuffixTest_def
        loginRequest_def js_def startsWith_def)
  have ct: "contentType lowerLatin1 exampleResponse = js ''text/html; charset=utf-8''"
    by (simp add: contentType_def exampleResponse_def lowerLatin1_def js_def)
  have html: "\<not> contentTypeRejected lowerLatin1 phpConfig exampleResponse"
    by (simp add: contentTypeRejected_def ct phpConfig_def exampleConfig_def js_def
        js_includes_def startsWith_def)
  have header: "\<not> requiredHeaderMissing lowerLatin1 phpConfig exampleResponse"
    by (simp add: requiredHeaderMissing_def phpConfig_def exampleConfig_def)
  have injected: "injectIntoHtml phpConfig (utf8_decode headBuffer)
      = \<lparr>out = js ''<head><i>x</i></head>'', changed = True\<rparr>"
    by (simp add: headBuffer_decoded phpConfig_def exampleConfig_def string_eval)
  have bytes: "decimal (byteLength (js ''<head><i>x</i></head>'')) = js ''21''"
    by (simp add: js_def utf8_eval)
  have "onProxyRes lowerLatin1 phpConfig headBuffer exampleResponse
      (loginRequest\<lparr>skipInject := Some False\<rparr>)
      = (Str (js ''<head><i>x</i></head>''),
         exampleResponse\<lparr>headers :=
           assign (headers exampleResponse) (js ''content-length'') (js ''21'')\<rparr>)"
    by (simp add: onProxyRes_def html header injected bytes)
  with path matches mark show ?thesis
    by (simp add: map_of_assign)
qed

text \<open>
  C9. When the injector is reached and reports a change, the interceptor returns the new
  body and assigns to \<open>content-length\<close> the decimal number of bytes of its UTF-8 encoding,
  leaving every other header as it was; when the injector reports no change, the
  interceptor gives back the buffer and the response object as they are.
\<close>

theorem C9_content_length:
  assumes "skipInject req \<noteq> Some True"
    and "\<not> contentTypeRejected toLowerCase cfg res"
    and "\<not> requiredHeaderMissing toLowerCase cfg res"
  shows "(changed (injectIntoHtml cfg (utf8_decode buf)) \<longrightarrow>
            fst (onProxyRes toLowerCase cfg buf res req)
              = Str (out (injectIntoHtml cfg (utf8_decode buf)))
            \<and> map_of (headers (snd (onProxyRes toLowerCase cfg buf res req))) (js ''content-length'')
                = Some (decimal (length (utf8_encode (out (injectIntoHtml cfg (utf8_decode buf))))))
            \<and> (\<forall>name. name \<noteq> js ''content-length'' \<longrightarrow>
                  map_of (headers (snd (onProxyRes toLowerCase cfg buf res req))) name
                    = map_of (headers res) name))
       \<and> (\<not> changed (injectIntoHtml cfg (utf8_decode buf)) \<longrightarrow>
            onProxyRes toLowerCase cfg buf res req = (Buf buf, res))"
  using assms by (simp add: onProxyRes_def Let_def map_of_assign byteLength_def)

text \<open>
  The body \<open><head><i>\<close>, U+00E9, \<open></i></head>\<close> has 21 code units and 22 bytes; the
  body without a marker comes back as the buffer.
\<close>

theorem C9_content_length_witness:
  "skipInject exampleRequest \<noteq> Some True
   \<and> \<not> contentTypeRejected lowerLatin1 accentConfig exampleResponse
   \<and> \<not> requiredHeaderMissing lowerLatin1 accentConfig exampleResponse
   \<and> injectIntoHtml accentConfig (utf8_decode headBuffer)
       = \<lparr>out = js ''<head><i>'' @ [0xE9] @ js ''</i></head>'', changed = True\<rparr>
   \<and> length (js ''<head><i>'' @ [0xE9] @ js ''</i></head>'') = 21
   \<and> fst (onProxyRes lowerLatin1 accentConfig headBuffer exampleResponse exampleRequest)
       = Str (js ''<head><i>'' @ [0xE9] @ js ''</i></head>'')
   \<and> map_of (headers (snd (onProxyRes lowerLatin1 accentConfig headBuffer exampleResponse
         exampleRequest))) (js ''content-length'')
       = Some (js ''22'')
   \<and> changed (injectIntoHtml accentConfig (utf8_decode (utf8_encode (js ''<body>'')))) = False
   \<and> onProxyRes lowerLatin1 accentConfig (utf8_encode (js ''<body>'')) exampleResponse exampleRequest
       = (Buf (utf8_encode (js ''<body>'')), exampleResponse)"
proof -
  let ?out = "js ''<head><i>'' @ [0xE9] @ js ''</i></head>''"
  have skip: "skipInject exampleRequest \<noteq> Some True"
    by (simp add: exampleRequest_def)
  have ct: "contentType lowerLatin1 exampleResponse = js ''text/html; charset=utf-8''"
    by (simp add: contentType_def exampleResponse_def lowerLatin1_def js_def)
  have html: "\<not> contentTypeRejected lowerLatin1 accentConfig exampleResponse"
    by (simp add: contentTypeRejected_def ct accentConfig_def exampleConfig_def js_def
        js_includes_def startsWith_def)
  have header: "\<not> requiredHeaderMissing lowerLatin1 accentConfig exampleResponse"
    by (simp add: requiredHeaderMissing_def accentConfig_def exampleConfig_def)
  have injected: "injectIntoHtml accentConfig (utf8_decode headBuffer)
      = \<lparr>out = ?out, changed = True\<rparr>"
    by (simp add: headBuffer_decoded accentConfig_def exampleConfig_def string_eval)
  have bytes: "decimal (length (utf8_encode ?out)) = js ''22''"
    by (simp add: js_def utf8_eval)
  have count: "length ?out = 21"
    by (simp add: js_def)
  have "utf8_decode (utf8_encode (js ''<body>'')) = js ''<body>''"
    by (simp add: js_def utf8_eval)
  then have same: "changed (injectIntoHtml accentConfig (utf8_decode (utf8_encode (js ''<body>''))))
      = False"
    by (simp add: accentConfig_def exampleConfig_def string_eval)
  show ?thesis
    using skip html header injected bytes count same
      C9_content_length [OF skip html header, where buf = headBuffer]
      C9_content_length [OF skip html header, where buf = "utf8_encode (js ''<body>'')"]
    by simp
qed

end
